theory Spec2Isabelle
  imports Main
begin

section \<open>23andMe genotyping data extraction\<close>

text \<open>
  A shallow embedding of \<^verbatim>\<open>sources/twenty_three_and_me/__init__.py\<close>: the
  cleaning pass \<^verbatim>\<open>clean_raw_23andme\<close>, the VCF encoder
  \<^verbatim>\<open>vcf_from_raw_23andme\<close>, the change detector \<^verbatim>\<open>should_update\<close>
  with \<^verbatim>\<open>same_orig_file\<close>, and \<^verbatim>\<open>create_files\<close>.

  Python strings are \<open>string\<close>, a raised exception is the \<open>Inl\<close> of a sum,
  the writes to a \<^verbatim>\<open>StringIO\<close> and the calls of \<^verbatim>\<open>sentry_log\<close> and of the
  logger are lists in call order. Library functions (\<^verbatim>\<open>bcrypt\<close>, \<^verbatim>\<open>urlparse\<close>,
  \<^verbatim>\<open>str\<close>, \<^verbatim>\<open>strptime\<close>, \<^verbatim>\<open>bz2\<close>, the file system) and the static
  files read from disk are fields of the record \<open>env\<close>; where the library call can
  raise, the field says so.
\<close>

subsection \<open>Exceptions and Python truthiness\<close>

datatype error =
    StopIteration
  | IndexError
  | ValueError
  | UnicodeEncodeError
  | IOError
  | Exception string

text \<open>\<^verbatim>\<open>not x\<close> for an attribute that is \<^verbatim>\<open>None\<close> or a string.\<close>

fun truthy :: "string option \<Rightarrow> bool" where
  "truthy None = False"
| "truthy (Some s) = (s \<noteq> [])"

subsection \<open>The source object and its environment\<close>

record metadata =
  description :: string
  tags :: "string list"
  orig_file_hash :: "string option"
  creation_date :: string

text \<open>
  An entry of \<^verbatim>\<open>files\<close> or \<^verbatim>\<open>temp_files\<close>. Both \<^verbatim>\<open>file_data['metadata']\<close> and
  \<^verbatim>\<open>['orig_file_hash']\<close> may be missing keys, hence the two options.
\<close>

record file_data =
  temp_filename :: string
  metadata :: "metadata option"

record source =
  input_file :: "string option"
  file_url :: "string option"
  oh_username :: string
  temp_files :: "file_data list"

text \<open>
  \<^item> \<open>hashpw password salt\<close> is \<^verbatim>\<open>bcrypt.hashpw\<close>: \<open>None\<close> when it raises
    \<^verbatim>\<open>ValueError\<close>, as it does for a salt that is not a bcrypt salt or hash;
  \<^item> \<open>py_str x\<close> is \<^verbatim>\<open>str(x)\<close>: \<open>None\<close> when it raises
    \<^verbatim>\<open>UnicodeEncodeError\<close>, as it does for a unicode string outside ASCII;
  \<^item> \<open>fs_open path\<close>, \<open>fs_copy path content\<close> and \<open>fs_close path\<close> tell whether
    opening the file for writing, \<^verbatim>\<open>shutil.copyfileobj\<close> into it and closing it
    succeed; a failure raises \<^verbatim>\<open>IOError\<close>;
  \<^item> \<open>open_archive\<close> is the lines the iterator of \<^verbatim>\<open>self.open_archive()\<close> yields,
    \<open>header_v1\<close> and \<open>header_v2\<close> the two template files, \<open>reference_file\<close> the
    lines of \<^verbatim>\<open>reference_b37.txt\<close>.
\<close>

record 'dt env =
  hashpw :: "string \<Rightarrow> string \<Rightarrow> string option"
  gensalt :: string
  py_str :: "string \<Rightarrow> string option"
  fs_open :: "string \<Rightarrow> bool"
  fs_copy :: "string \<Rightarrow> string \<Rightarrow> bool"
  fs_close :: "string \<Rightarrow> bool"
  urlparse_path :: "string \<Rightarrow> string"
  strptime :: "string \<Rightarrow> 'dt option"
  strftime :: "'dt \<Rightarrow> string"
  today :: "nat \<times> nat \<times> nat"
  arrow_now :: string
  temp_join :: "string \<Rightarrow> string"
  bz2_compress :: "string \<Rightarrow> string"
  open_archive :: "string list"
  header_v1 :: string
  header_v2 :: string
  reference_file :: "string list"

subsection \<open>Change detection\<close>

definition SOURCE :: string where
  "SOURCE = ''twenty_three_and_me''"

text \<open>
  \<^verbatim>\<open>same_orig_file\<close>, with \<open>h\<close> for \<^verbatim>\<open>orig_file_hash\<close> and \<open>hashed\<close> for
  \<^verbatim>\<open>new_hash\<close>: the path is converted first, then the stored hash, then
  \<^verbatim>\<open>bcrypt.hashpw\<close> is called with the stored hash as salt; each can raise.
\<close>

definition same_orig_file :: "'dt env \<Rightarrow> source \<Rightarrow> string \<Rightarrow> error + bool" where
  "same_orig_file E self h =
     (if \<not> truthy (file_url self) then Inr False
      else case py_str E (urlparse_path E (the (file_url self))) of
             None \<Rightarrow> Inl UnicodeEncodeError
           | Some url_path \<Rightarrow>
               (case py_str E h of
                  None \<Rightarrow> Inl UnicodeEncodeError
                | Some salt \<Rightarrow>
                    (case hashpw E url_path salt of
                       None \<Rightarrow> Inl ValueError
                     | Some hashed \<Rightarrow> Inr (h = hashed))))"

text \<open>
  The loop of \<^verbatim>\<open>should_update\<close>; \<open>Inr None\<close> is falling out of the loop,
  \<open>Inr (Some b)\<close> is \<^verbatim>\<open>return b\<close> from inside it. Only the \<^verbatim>\<open>KeyError\<close> of a
  missing key is caught; an exception of \<^verbatim>\<open>same_orig_file\<close> leaves the function.
\<close>

fun should_update_loop :: "'dt env \<Rightarrow> source \<Rightarrow> file_data list \<Rightarrow> error + bool option" where
  "should_update_loop E self [] = Inr None"
| "should_update_loop E self (fd # fds) =
     (case metadata fd of
        None \<Rightarrow> Inr (Some True)
      | Some m \<Rightarrow>
          (case orig_file_hash m of
             None \<Rightarrow> Inr (Some True)
           | Some h \<Rightarrow>
               (case same_orig_file E self h of
                  Inl e \<Rightarrow> Inl e
                | Inr same \<Rightarrow>
                    if \<not> same then Inr (Some True)
                    else should_update_loop E self fds)))"

definition update_unnecessary :: "source \<Rightarrow> string" where
  "update_unnecessary self =
     ''Update unnecessary for user \"'' @ oh_username self @ ''\", source \"'' @ SOURCE @ ''\".''"

text \<open>The result and the \<^verbatim>\<open>logger.info\<close> entries written.\<close>

definition should_update :: "'dt env \<Rightarrow> source \<Rightarrow> file_data list \<Rightarrow> error + bool \<times> string list" where
  "should_update E self files =
     (if files = [] then Inr (True, [])
      else case should_update_loop E self files of
             Inl e \<Rightarrow> Inl e
           | Inr (Some b) \<Rightarrow> Inr (b, [])
           | Inr None \<Rightarrow> Inr (False, [update_unnecessary self]))"

text \<open>The stored fingerprint of an artifact, when both keys are present.\<close>

definition fingerprint :: "file_data \<Rightarrow> string option" where
  "fingerprint fd = (case metadata fd of None \<Rightarrow> None | Some m \<Rightarrow> orig_file_hash m)"

subsection \<open>Strings\<close>

abbreviation TAB :: char where "TAB \<equiv> CHR 0x09"
abbreviation LF :: char where "LF \<equiv> CHR 0x0A"
abbreviation CR :: char where "CR \<equiv> CHR 0x0D"

definition startswith :: "string \<Rightarrow> string \<Rightarrow> bool" where
  "startswith s p = (take (length p) s = p)"

text \<open>The characters \<^verbatim>\<open>str.rstrip()\<close> removes: space, tab, LF, VT, FF, CR.\<close>

definition is_space :: "char \<Rightarrow> bool" where
  "is_space c = (c \<in> set [CHR '' '', TAB, LF, CHR 0x0B, CHR 0x0C, CR])"

definition rstrip :: "string \<Rightarrow> string" where
  "rstrip s = rev (dropWhile is_space (rev s))"

text \<open>\<^verbatim>\<open>s.split(sep)\<close> for a one-character separator: never an empty list.\<close>

fun split_on :: "char \<Rightarrow> string \<Rightarrow> string list" where
  "split_on sep [] = [[]]"
| "split_on sep (c # cs) =
     (if c = sep then [] # split_on sep cs
      else case split_on sep cs of
             [] \<Rightarrow> [[c]]
           | f # fs \<Rightarrow> (c # f) # fs)"

fun join :: "string \<Rightarrow> string list \<Rightarrow> string" where
  "join sep [] = []"
| "join sep [x] = x"
| "join sep (x # y # ys) = x @ sep @ join sep (y # ys)"

text \<open>
  \<^verbatim>\<open>str.splitlines()\<close> of a byte string: a line ends at LF, CR or CR LF, the
  terminator is dropped, and text after the last terminator is a line only when it
  is not empty. The first argument is the line read so far.
\<close>

fun splitlines_from :: "string \<Rightarrow> string \<Rightarrow> string list" where
  "splitlines_from cur [] = (if cur = [] then [] else [cur])"
| "splitlines_from cur [c] =
     (if c = LF \<or> c = CR then [cur] else [cur @ [c]])"
| "splitlines_from cur (c # d # cs) =
     (if c = LF then cur # splitlines_from [] (d # cs)
      else if c = CR then
        (if d = LF then cur # splitlines_from [] cs
         else cur # splitlines_from [] (d # cs))
      else splitlines_from (cur @ [c]) (d # cs))"

definition splitlines :: "string \<Rightarrow> string list" where
  "splitlines s = splitlines_from [] s"


definition digit_char :: "nat \<Rightarrow> char" where
  "digit_char d = char_of (48 + d)"

function str_nat :: "nat \<Rightarrow> string" where
  "str_nat n = (if n < 10 then [digit_char n] else str_nat (n div 10) @ [digit_char (n mod 10)])"
  by pat_completeness auto
termination
  by (relation "measure id") auto

declare str_nat.simps [simp del]


subsection \<open>Regular expressions\<close>

text \<open>
  The fragment of \<^verbatim>\<open>re\<close> the module uses: character classes, \<^verbatim>\<open>+\<close> on a
  class, \<^verbatim>\<open>?\<close>, sequence and alternation. \<open>Nomatch\<close>, \<open>Eps\<close> and \<open>Many\<close>
  (\<^verbatim>\<open>*\<close> on a class) arise as derivatives. A class is the list of its characters.
\<close>

datatype rexp =
    Nomatch
  | Eps
  | Chars "char list"
  | Many "char list"
  | Plus1 "char list"
  | Opt rexp
  | Seq rexp rexp
  | Alt rexp rexp

fun nullable :: "rexp \<Rightarrow> bool" where
  "nullable Nomatch = False"
| "nullable Eps = True"
| "nullable (Chars cs) = False"
| "nullable (Many cs) = True"
| "nullable (Plus1 cs) = False"
| "nullable (Opt r) = True"
| "nullable (Seq r s) = (nullable r \<and> nullable s)"
| "nullable (Alt r s) = (nullable r \<or> nullable s)"

fun deriv :: "char \<Rightarrow> rexp \<Rightarrow> rexp" where
  "deriv c Nomatch = Nomatch"
| "deriv c Eps = Nomatch"
| "deriv c (Chars cs) = (if c \<in> set cs then Eps else Nomatch)"
| "deriv c (Many cs) = (if c \<in> set cs then Many cs else Nomatch)"
| "deriv c (Plus1 cs) = (if c \<in> set cs then Many cs else Nomatch)"
| "deriv c (Opt r) = deriv c r"
| "deriv c (Seq r s) =
     (if nullable r then Alt (Seq (deriv c r) s) (deriv c s) else Seq (deriv c r) s)"
| "deriv c (Alt r s) = Alt (deriv c r) (deriv c s)"

text \<open>\<^verbatim>\<open>re.match(r, s)\<close> succeeds: some prefix of \<open>s\<close> matches \<open>r\<close>.\<close>

fun re_match :: "rexp \<Rightarrow> string \<Rightarrow> bool" where
  "re_match r [] = nullable r"
| "re_match r (c # cs) = (nullable r \<or> re_match (deriv c r) cs)"

text \<open>The whole of \<open>s\<close> matches \<open>r\<close>.\<close>

fun re_fullmatch :: "rexp \<Rightarrow> string \<Rightarrow> bool" where
  "re_fullmatch r [] = nullable r"
| "re_fullmatch r (c # cs) = re_fullmatch (deriv c r) cs"

text \<open>
  \<^verbatim>\<open>re.match('^' + r + '$', s)\<close>: without \<^verbatim>\<open>re.MULTILINE\<close>, \<^verbatim>\<open>$\<close> matches at
  the end of the string and before a line feed that is its last character.
\<close>

definition re_match_anchored :: "rexp \<Rightarrow> string \<Rightarrow> bool" where
  "re_match_anchored r s = re_fullmatch (Seq r (Opt (Chars [LF]))) s"

definition seqs :: "rexp list \<Rightarrow> rexp" where
  "seqs rs = foldr Seq rs Eps"

definition lit :: "string \<Rightarrow> rexp" where
  "lit s = seqs (map (\<lambda>c. Chars [c]) s)"

definition digit :: "char list" where
  "digit = ''0123456789''"

definition upper :: "char list" where
  "upper = ''ABCDEFGHIJKLMNOPQRSTUVWXYZ''"

definition lower :: "char list" where
  "lower = ''abcdefghijklmnopqrstuvwxyz''"

text \<open>\<^verbatim>\<open>(rs|i)[0-9]+\t[1-9XYM][0-9T]?\t[0-9]+\t[ACGT\-ID][ACGT\-ID]?\<close>\<close>

definition body_re :: rexp where
  "body_re = seqs
     [Alt (lit ''rs'') (lit ''i''), Plus1 digit, Chars [TAB],
      Chars ''123456789XYM'', Opt (Chars ''0123456789T''), Chars [TAB],
      Plus1 digit, Chars [TAB],
      Chars ''ACGT-ID'', Opt (Chars ''ACGT-ID'')]"

definition body_match :: "string \<Rightarrow> bool" where
  "body_match line = re_match body_re line"

text \<open>\<^verbatim>\<open>^[ACGT]{1,2}$\<close>\<close>

definition call_re :: rexp where
  "call_re = Seq (Chars ''ACGT'') (Opt (Chars ''ACGT''))"

definition call_match :: "string \<Rightarrow> bool" where
  "call_match s = re_match_anchored call_re s"

text \<open>
  \<^verbatim>\<open>[A-Z][a-z]{2} [A-Z][a-z]{2} [ 1-9][0-9] [0-9][0-9]:[0-9][0-9]:[0-9][0-9] 2[0-9]{3}\<close>,
  which matches 24 characters.
\<close>

definition re_datetime_string :: rexp where
  "re_datetime_string = seqs
     [Chars upper, Chars lower, Chars lower, lit '' '',
      Chars upper, Chars lower, Chars lower, lit '' '',
      Chars '' 123456789'', Chars digit, lit '' '',
      Chars digit, Chars digit, lit '':'', Chars digit, Chars digit, lit '':'',
      Chars digit, Chars digit, lit '' 2'', Chars digit, Chars digit, Chars digit]"

text \<open>\<^verbatim>\<open>re.search(re_datetime_string, s).groups()[0]\<close>: the leftmost match.\<close>

fun re_search_datetime :: "string \<Rightarrow> string option" where
  "re_search_datetime [] = (if re_match re_datetime_string [] then Some [] else None)"
| "re_search_datetime (c # cs) =
     (if re_match re_datetime_string (c # cs) then Some (take 24 (c # cs))
      else re_search_datetime cs)"

text \<open>
  \<^verbatim>\<open>re.sub(r'(?<=[a-z])  ([1-9])(?= [0-9][0-9]:[0-9][0-9])', r' 0\1', s)\<close>.
  \<open>re_norm_day\<close> is the pattern without its look-behind; the look-behind is the
  test on the previous character, the first argument of \<open>sub_norm_day\<close>.
\<close>

definition re_norm_day :: rexp where
  "re_norm_day = seqs
     [lit ''  '', Chars ''123456789'', lit '' '',
      Chars digit, Chars digit, lit '':'', Chars digit, Chars digit]"

fun sub_norm_day :: "char option \<Rightarrow> string \<Rightarrow> string" where
  "sub_norm_day prev [] = []"
| "sub_norm_day prev (c # cs) =
     (if (case prev of None \<Rightarrow> False | Some p \<Rightarrow> p \<in> set lower) \<and> re_match re_norm_day (c # cs)
      then (case cs of
              b # d # rest \<Rightarrow> '' 0'' @ [d] @ sub_norm_day (Some d) rest
            | _ \<Rightarrow> c # sub_norm_day (Some c) cs)
      else c # sub_norm_day (Some c) cs)"

subsection \<open>The cleaning pass\<close>

record clean_state =
  output_buf :: "string list"
  bad_format :: bool
  sentry :: "string list"
  warnings :: "string list"

definition header_anomaly :: string where
  "header_anomaly = ''23andMe header did not conform to expected format.''"

definition body_anomaly :: string where
  "body_anomaly = ''23andMe body did not conform to expected format.''"

definition bad_format_warning :: "string \<Rightarrow> string" where
  "bad_format_warning next_line = ''Bad format: \"'' @ next_line @ ''\"''"

text \<open>
  What is written for the first line: nothing when it holds no date, a
  \<^verbatim>\<open>ValueError\<close> when \<^verbatim>\<open>strptime\<close> rejects the date found.
\<close>

definition clean_dateline :: "'dt env \<Rightarrow> string \<Rightarrow> error + string list" where
  "clean_dateline E dateline =
     (case re_search_datetime dateline of
        None \<Rightarrow> Inr []
      | Some datetime_string \<Rightarrow>
          (let datetime_norm = sub_norm_day None datetime_string
           in case strptime E datetime_norm of
                None \<Rightarrow> Inl ValueError
              | Some datetime_23andme \<Rightarrow>
                  Inr [''# This data file generated by 23andMe at: ''
                       @ strftime E datetime_23andme @ [CR, LF]]))"

text \<open>
  \<^verbatim>\<open>while next_line.startswith('#')\<close>: the arguments are \<^verbatim>\<open>header_lines\<close>,
  \<^verbatim>\<open>next_line\<close> and what the iterator still holds. \<^verbatim>\<open>input_file.next()\<close> on an
  exhausted iterator raises.
\<close>

fun header_loop :: "string \<Rightarrow> string \<Rightarrow> string list \<Rightarrow> error + string \<times> string \<times> string list" where
  "header_loop header_lines next_line [] =
     (if startswith next_line ''#'' then Inl StopIteration
      else Inr (header_lines, next_line, []))"
| "header_loop header_lines next_line (l # ls) =
     (if startswith next_line ''#'' then header_loop (header_lines @ next_line) l ls
      else Inr (header_lines, next_line, l # ls))"

definition header_conforms :: "'dt env \<Rightarrow> string \<Rightarrow> bool" where
  "header_conforms E header_lines =
     (splitlines header_lines = splitlines (header_v1 E) \<or>
      splitlines header_lines = splitlines (header_v2 E))"

text \<open>The body of \<^verbatim>\<open>while next_line\<close>, up to the read of the next line.\<close>

definition body_step :: "clean_state \<Rightarrow> string \<Rightarrow> clean_state" where
  "body_step st next_line =
     (if body_match next_line then st\<lparr>output_buf := output_buf st @ [next_line]\<rparr>
      else if \<not> bad_format st then
        st\<lparr>bad_format := True,
           sentry := sentry st @ [body_anomaly],
           warnings := warnings st @ [bad_format_warning next_line]\<rparr>
      else st)"

text \<open>
  \<^verbatim>\<open>while next_line\<close>: an empty string ends the loop as \<^verbatim>\<open>None\<close> does, and the
  end of the iterator sets \<^verbatim>\<open>next_line = None\<close>.
\<close>

fun body_loop :: "clean_state \<Rightarrow> string \<Rightarrow> string list \<Rightarrow> clean_state" where
  "body_loop st next_line [] = (if next_line = [] then st else body_step st next_line)"
| "body_loop st next_line (l # ls) =
     (if next_line = [] then st else body_loop (body_step st next_line) l ls)"

definition clean_raw_23andme :: "'dt env \<Rightarrow> error + clean_state" where
  "clean_raw_23andme E =
     (case open_archive E of
        [] \<Rightarrow> Inl StopIteration
      | dateline # input1 \<Rightarrow>
          (case clean_dateline E dateline of
             Inl e \<Rightarrow> Inl e
           | Inr out0 \<Rightarrow>
               (case input1 of
                  [] \<Rightarrow> Inl StopIteration
                | l # input2 \<Rightarrow>
                    (case header_loop [] l input2 of
                       Inl e \<Rightarrow> Inl e
                     | Inr (header_lines, next_line, input3) \<Rightarrow>
                         (let st0 =
                                (if header_conforms E header_lines
                                 then \<lparr>output_buf = out0 @ [header_lines], bad_format = False,
                                       sentry = [], warnings = []\<rparr>
                                 else \<lparr>output_buf = out0, bad_format = False,
                                       sentry = [header_anomaly], warnings = []\<rparr>);
                              st1 = body_loop st0 next_line input3
                          in Inr (if bad_format st1
                                  then st1\<lparr>sentry := sentry st1 @ [body_anomaly]\<rparr>
                                  else st1))))))"

subsection \<open>The VCF encoder\<close>

datatype vcf_field = CHROM | POS | ID | REF | ALT | QUAL | FILTER | INFO | FORMAT | DATA_23ANDME





type_synonym reference = "string \<rightharpoonup> (string \<rightharpoonup> string)"


text \<open>\<^verbatim>\<open>reference[chrom][pos]\<close>, with \<open>None\<close> for the \<^verbatim>\<open>KeyError\<close> the loop catches.\<close>

definition lookup :: "reference \<Rightarrow> string \<Rightarrow> string \<Rightarrow> string option" where
  "lookup reference chrom pos =
     (case reference chrom of None \<Rightarrow> None | Some m \<Rightarrow> m pos)"

text \<open>
  \<^verbatim>\<open>for alle in data[3]\<close>: an allele is a one-character string, the reference
  base whatever string the reference file holds.
\<close>

fun alt_loop :: "string \<Rightarrow> string list \<Rightarrow> string \<Rightarrow> string list" where
  "alt_loop ref alt_alleles [] = alt_alleles"
| "alt_loop ref alt_alleles (alle # rest) =
     alt_loop ref
       (if [alle] \<noteq> ref \<and> [alle] \<notin> set alt_alleles then alt_alleles @ [[alle]]
        else alt_alleles)
       rest"

text \<open>\<^verbatim>\<open>list.index\<close>, which raises \<^verbatim>\<open>ValueError\<close> for an absent element.\<close>

fun index :: "'a list \<Rightarrow> 'a \<Rightarrow> nat option" where
  "index [] x = None"
| "index (y # ys) x = (if y = x then Some 0 else map_option Suc (index ys x))"

fun genotype_indices :: "string list \<Rightarrow> string \<Rightarrow> error + string list" where
  "genotype_indices all_alleles [] = Inr []"
| "genotype_indices all_alleles (x # xs) =
     (case index all_alleles [x] of
        None \<Rightarrow> Inl ValueError
      | Some i \<Rightarrow>
          (case genotype_indices all_alleles xs of
             Inl e \<Rightarrow> Inl e
           | Inr is \<Rightarrow> Inr (str_nat i # is)))"

text \<open>
  One turn of \<^verbatim>\<open>for line in raw_23andme\<close>: \<open>Inr None\<close> is \<^verbatim>\<open>continue\<close>,
  \<open>Inr (Some vcf_data)\<close> the record of the line.
\<close>

definition vcf_record :: "reference \<Rightarrow> string \<Rightarrow> error + (vcf_field \<Rightarrow> string) option" where
  "vcf_record reference line =
     (if startswith line ''#'' then Inr None
      else let data = split_on TAB (rstrip line)
      in if length data < 4 then Inl IndexError
         else if \<not> call_match (data ! 3) then Inr None
         else case lookup reference (data ! 1) (data ! 2) of
                None \<Rightarrow> Inr None
              | Some ref \<Rightarrow>
                  (let v0 = (\<lambda>x. ''.'')(REF := ref);
                       v1 = v0(CHROM := (if data ! 1 = ''MT'' then ''M'' else data ! 1));
                       v2 = v1(POS := data ! 2);
                       v3 = (if startswith (data ! 0) ''rs'' then v2(ID := data ! 0) else v2);
                       alt_alleles = alt_loop (v3 REF) [] (data ! 3);
                       v4 = (if alt_alleles \<noteq> [] then v3(ALT := join '','' alt_alleles)
                             else v3(ALT := ''.'', INFO := ''END='' @ v3 POS));
                       v5 = v4(FORMAT := ''GT'');
                       all_alleles = [v5 REF] @ alt_alleles
                   in case genotype_indices all_alleles (data ! 3) of
                        Inl e \<Rightarrow> Inl e
                      | Inr genotype \<Rightarrow>
                          Inr (Some (v5(DATA_23ANDME := join ''/'' genotype)))))"




subsection \<open>Creating the two files\<close>


text \<open>Lines 257 to 260: the fingerprint stored with both artifacts.\<close>

definition new_hash :: "'dt env \<Rightarrow> source \<Rightarrow> error + string" where
  "new_hash E self =
     (if truthy (file_url self) then
        (let orig_path = urlparse_path E (the (file_url self))
         in case py_str E orig_path of
              None \<Rightarrow> Inl UnicodeEncodeError
            | Some password \<Rightarrow>
                (case hashpw E password (gensalt E) of
                   None \<Rightarrow> Inl ValueError
                 | Some h \<Rightarrow> Inr h))
      else Inr [])"








subsection \<open>A sample run\<close>

text \<open>
  An archive whose header differs from both templates, with two malformed body
  lines, a line on chromosome \<^verbatim>\<open>99\<close> with a four-letter call, and a line whose
  position the reference does not hold. The sample \<open>hashpw\<close> accepts a salt that
  starts as a bcrypt salt does and rejects any other; the file system never fails.
\<close>

definition sample_dateline :: string where
  "sample_dateline =
     ''# This data file generated by 23andMe at: Mon Jan  5 10:11:12 2015'' @ [LF]"

definition sample_header :: "string list" where
  "sample_header =
     [''# rsid'' @ [TAB] @ ''chromosome'' @ [TAB] @ ''position'' @ [TAB] @ ''genotype'' @ [LF]]"

definition sample_first :: string where
  "sample_first = ''rs123'' @ [TAB] @ ''1'' @ [TAB] @ ''1000'' @ [TAB] @ ''AG'' @ [LF]"

definition sample_rest :: "string list" where
  "sample_rest =
     [''John Doe'' @ [LF],
      ''i700001'' @ [TAB] @ ''1'' @ [TAB] @ ''1001'' @ [TAB] @ ''AA'' @ [LF],
      ''rs5'' @ [TAB] @ ''1'' @ [LF],
      ''rs888'' @ [TAB] @ ''1'' @ [TAB] @ ''999999'' @ [TAB] @ ''AG'' @ [LF],
      ''rs777'' @ [TAB] @ ''99'' @ [TAB] @ ''5'' @ [TAB] @ ''GTTA'' @ [LF]]"

definition sample_archive :: "string list" where
  "sample_archive = sample_dateline # sample_header @ sample_first # sample_rest"

definition sample_env :: "string env" where
  "sample_env =
     \<lparr>hashpw = (\<lambda>password salt.
         if take 4 salt = ''$2a$'' then Some (take 4 salt @ password) else None),
      gensalt = ''$2a$'',
      py_str = Some,
      fs_open = (\<lambda>path. True),
      fs_copy = (\<lambda>path content. True),
      fs_close = (\<lambda>path. True),
      urlparse_path = drop 19,
      strptime = Some,
      strftime = id,
      today = (2014, 3, 9),
      arrow_now = ''2014-03-09T00:00:00+00:00'',
      temp_join = (\<lambda>name. ''/tmp/'' @ name),
      bz2_compress = id,
      open_archive = sample_archive,
      header_v1 = ''# rsid'' @ [TAB] @ ''chromosome'' @ [TAB] @ ''position'' @ [LF],
      header_v2 = ''# rsid'' @ [LF],
      reference_file =
        [''1'' @ [TAB] @ ''1000'' @ [TAB] @ ''A'' @ [LF],
         ''1'' @ [TAB] @ ''1001'' @ [TAB] @ ''A'' @ [LF]]\<rparr>"

definition sample_source :: source where
  "sample_source =
     \<lparr>input_file = Some ''genome.txt'', file_url = Some ''https://example.org/u/genome.zip'',
      oh_username = ''user'', temp_files = []\<rparr>"

definition sample_file :: "string option \<Rightarrow> file_data" where
  "sample_file h =
     \<lparr>temp_filename = ''23andMe-genotyping.txt'',
      metadata = Some \<lparr>description = ''23andMe full genotyping data, original format'',
                       tags = [''23andMe'', ''genotyping''],
                       orig_file_hash = h,
                       creation_date = ''2014-03-09T00:00:00+00:00''\<rparr>\<rparr>"



subsection \<open>Notions used to state the properties\<close>

text \<open>
  The words a regular expression matches in full. \<open>re_match\<close> and \<open>re_fullmatch\<close>
  are shown below to decide membership of a prefix, and of the whole string.
\<close>

fun lang :: "rexp \<Rightarrow> string set" where
  "lang Nomatch = {}"
| "lang Eps = {[]}"
| "lang (Chars cs) = {[c] | c. c \<in> set cs}"
| "lang (Many cs) = {w. set w \<subseteq> set cs}"
| "lang (Plus1 cs) = {w. w \<noteq> [] \<and> set w \<subseteq> set cs}"
| "lang (Opt r) = insert [] (lang r)"
| "lang (Seq r s) = {u @ v | u v. u \<in> lang r \<and> v \<in> lang s}"
| "lang (Alt r s) = lang r \<union> lang s"

text \<open>The lines the body loop handles: those before the first empty string.\<close>

definition body_lines :: "string \<Rightarrow> string list \<Rightarrow> string list" where
  "body_lines next_line rest = takeWhile (\<lambda>l. l \<noteq> []) (next_line # rest)"

definition failing :: "string list \<Rightarrow> string list" where
  "failing ls = filter (\<lambda>l. \<not> body_match l) ls"




text \<open>
  The alternate alleles as the specification words them: the characters of the call
  that differ from the reference base, each kept at its first occurrence.
\<close>

fun dedup_first :: "'a list \<Rightarrow> 'a list" where
  "dedup_first [] = []"
| "dedup_first (x # xs) = x # filter (\<lambda>y. y \<noteq> x) (dedup_first xs)"

definition spec_alt_list :: "string \<Rightarrow> string \<Rightarrow> string list" where
  "spec_alt_list ref call = dedup_first (filter (\<lambda>a. a \<noteq> ref) (map (\<lambda>c. [c]) call))"

text \<open>
  The record \<^verbatim>\<open>vcf_data\<close> of a line with fields \<open>data\<close> and reference base \<open>ref\<close>
  in closed form; \<open>vcf_record_closed\<close> below shows that \<open>vcf_record\<close> builds it.
\<close>

definition vcf_data_of :: "string list \<Rightarrow> string \<Rightarrow> vcf_field \<Rightarrow> string" where
  "vcf_data_of data ref =
     (\<lambda>x. ''.'')
       (REF := ref,
        CHROM := (if data ! 1 = ''MT'' then ''M'' else data ! 1),
        POS := data ! 2,
        ID := (if startswith (data ! 0) ''rs'' then data ! 0 else ''.''),
        ALT := (if alt_loop ref [] (data ! 3) \<noteq> [] then join '','' (alt_loop ref [] (data ! 3))
                else ''.''),
        INFO := (if alt_loop ref [] (data ! 3) \<noteq> [] then ''.'' else ''END='' @ data ! 2),
        FORMAT := ''GT'',
        DATA_23ANDME :=
          join ''/'' (map (\<lambda>c. str_nat (the (index (ref # alt_loop ref [] (data ! 3)) [c])))
                        (data ! 3)))"

definition sample_reference :: reference where
  "sample_reference = [''1'' \<mapsto> [''1000'' \<mapsto> ''A'', ''1001'' \<mapsto> ''A'']]"

section \<open>Properties of the change detector\<close>

lemma same_orig_file_no_url:
  "\<not> truthy (file_url self) \<Longrightarrow> same_orig_file E self h = Inr False"
  by (simp add: same_orig_file_def)

text \<open>Where \<^verbatim>\<open>bcrypt.hashpw\<close> rejects the stored hash as a salt, the check raises.\<close>

lemma same_orig_file_invalid_salt:
  assumes "truthy (file_url self)"
    and "py_str E (urlparse_path E (the (file_url self))) = Some url_path"
    and "py_str E h = Some salt"
    and "hashpw E url_path salt = None"
  shows "same_orig_file E self h = Inl ValueError"
  using assms by (simp add: same_orig_file_def)

lemma should_update_raises:
  assumes "fingerprint fd = Some h" and "same_orig_file E self h = Inl e"
  shows "should_update E self (fd # fds) = Inl e"
  using assms by (auto simp: should_update_def fingerprint_def split: option.splits)

text \<open>
  Where no check of a stored fingerprint raises, the result is as the docstring of
  \<^verbatim>\<open>should_update\<close> has it: false exactly when there are artifacts, each with a
  fingerprint that matches.
\<close>

lemma should_update_loop_accepting:
  assumes "\<forall>fd \<in> set files. \<forall>h. fingerprint fd = Some h \<longrightarrow> \<not> isl (same_orig_file E self h)"
  shows "should_update_loop E self files =
     Inr (if \<forall>fd \<in> set files. \<exists>h. fingerprint fd = Some h \<and> same_orig_file E self h = Inr True
          then None else Some True)"
  using assms
proof (induction files)
  case Nil
  then show ?case by simp
next
  case (Cons fd files)
  from Cons have IH: "should_update_loop E self files =
      Inr (if \<forall>fd \<in> set files. \<exists>h. fingerprint fd = Some h \<and> same_orig_file E self h = Inr True
           then None else Some True)"
    by simp
  show ?case
  proof (cases "fingerprint fd")
    case None
    then have "should_update_loop E self (fd # files) = Inr (Some True)"
      by (simp add: fingerprint_def split: option.splits)
    with None show ?thesis by simp
  next
    case (Some h)
    with Cons.prems obtain b where b: "same_orig_file E self h = Inr b"
      by (cases "same_orig_file E self h") auto
    from Some obtain m where m: "metadata fd = Some m" "orig_file_hash m = Some h"
      by (auto simp: fingerprint_def split: option.splits)
    have step: "should_update_loop E self (fd # files) =
        (if \<not> b then Inr (Some True) else should_update_loop E self files)"
      by (simp add: m b)
    have all: "(\<forall>fd' \<in> set (fd # files).
                  \<exists>h. fingerprint fd' = Some h \<and> same_orig_file E self h = Inr True)
        \<longleftrightarrow> b \<and> (\<forall>fd' \<in> set files.
                  \<exists>h. fingerprint fd' = Some h \<and> same_orig_file E self h = Inr True)"
      using Some b by simp
    show ?thesis
      unfolding step all IH by simp
  qed
qed

lemma should_update_accepting:
  assumes "\<forall>fd \<in> set files. \<forall>h. fingerprint fd = Some h \<longrightarrow> \<not> isl (same_orig_file E self h)"
  shows "should_update E self files =
     (if files \<noteq> [] \<and>
         (\<forall>fd \<in> set files. \<exists>h. fingerprint fd = Some h \<and> same_orig_file E self h = Inr True)
      then Inr (False, [update_unnecessary self]) else Inr (True, []))"
  using should_update_loop_accepting [OF assms]
  by (simp add: should_update_def)

text \<open>
  C4. The claim holds where \<^verbatim>\<open>bcrypt.hashpw\<close> accepts every stored fingerprint as
  a salt (\<open>should_update_accepting\<close>), and the code breaks it otherwise. A run with
  no remote file URL stores the empty string as fingerprint; with a URL set, a
  collection whose first artifact carries that fingerprint and whose second has none
  makes \<^verbatim>\<open>should_update\<close> raise \<^verbatim>\<open>ValueError\<close> where the claim has it return true.
\<close>

theorem should_update_invalid_salt:
  "new_hash sample_env (sample_source\<lparr>file_url := None\<rparr>) = Inr []
   \<and> fingerprint (sample_file (Some [])) = Some []
   \<and> fingerprint (sample_file None) = None
   \<and> truthy (file_url sample_source)
   \<and> should_update sample_env sample_source [sample_file (Some []), sample_file None]
       = Inl ValueError"
  by (simp add: new_hash_def should_update_def same_orig_file_def fingerprint_def
        sample_env_def sample_source_def sample_file_def)

text \<open>
  C9. With no remote file URL, \<^verbatim>\<open>same_orig_file\<close> is false for every stored
  fingerprint, and \<^verbatim>\<open>should_update\<close> is true for every collection that is not empty,
  whatever fingerprints its artifacts carry.
\<close>

theorem should_update_without_file_url:
  assumes "\<not> truthy (file_url self)"
  shows "(\<forall>h. same_orig_file E self h = Inr False)
         \<and> (\<forall>files. files \<noteq> [] \<longrightarrow> should_update E self files = Inr (True, []))"
proof -
  have no: "same_orig_file E self h = Inr False" for h
    using assms by (rule same_orig_file_no_url)
  have "should_update E self files = Inr (True, [])" if "files \<noteq> []" for files
  proof -
    have "should_update E self files =
        (if files \<noteq> [] \<and>
            (\<forall>fd \<in> set files. \<exists>h. fingerprint fd = Some h \<and> same_orig_file E self h = Inr True)
         then Inr (False, [update_unnecessary self]) else Inr (True, []))"
      by (rule should_update_accepting) (simp add: no)
    moreover have "\<not> (\<forall>fd \<in> set files. \<exists>h. fingerprint fd = Some h \<and> same_orig_file E self h = Inr True)"
      using that by (cases files) (auto simp: no)
    ultimately show ?thesis by simp
  qed
  with no show ?thesis by blast
qed

theorem should_update_without_file_url_witness:
  "\<not> truthy (file_url (sample_source\<lparr>file_url := None\<rparr>))
   \<and> same_orig_file sample_env (sample_source\<lparr>file_url := None\<rparr>) ''$2a$/u/genome.zip'' = Inr False
   \<and> should_update sample_env (sample_source\<lparr>file_url := None\<rparr>)
        [sample_file (Some ''$2a$/u/genome.zip'')] = Inr (True, [])"
proof -
  have h: "\<not> truthy (file_url (sample_source\<lparr>file_url := None\<rparr>))" by simp
  show ?thesis
    using h should_update_without_file_url [OF h, of sample_env] by blast
qed

section \<open>Regular expressions: the matcher decides the language\<close>

lemma nullable_lang: "nullable r \<longleftrightarrow> [] \<in> lang r"
  by (induction r) auto

lemma deriv_lang: "w \<in> lang (deriv c r) \<longleftrightarrow> c # w \<in> lang r"
proof (induction r arbitrary: w)
  case (Seq r s)
  show ?case
  proof
    assume "w \<in> lang (deriv c (Seq r s))"
    then consider u v where "w = u @ v" "u \<in> lang (deriv c r)" "v \<in> lang s"
      | "nullable r" "w \<in> lang (deriv c s)"
      by (auto split: if_splits)
    then show "c # w \<in> lang (Seq r s)"
    proof cases
      case 1
      then have "c # u \<in> lang r" using Seq.IH(1) by simp
      with 1 have "c # w = (c # u) @ v \<and> c # u \<in> lang r \<and> v \<in> lang s" by simp
      then show ?thesis unfolding lang.simps by blast
    next
      case 2
      then have "[] \<in> lang r" "c # w \<in> lang s"
        using Seq.IH(2) by (simp_all add: nullable_lang)
      then have "c # w = [] @ (c # w) \<and> [] \<in> lang r \<and> c # w \<in> lang s" by simp
      then show ?thesis unfolding lang.simps by blast
    qed
  next
    assume "c # w \<in> lang (Seq r s)"
    then obtain u v where uv: "c # w = u @ v" "u \<in> lang r" "v \<in> lang s" by auto
    show "w \<in> lang (deriv c (Seq r s))"
    proof (cases u)
      case Nil
      with uv have "nullable r" "w \<in> lang (deriv c s)"
        using Seq.IH(2) by (simp_all add: nullable_lang)
      then show ?thesis by simp
    next
      case (Cons a u')
      with uv have "w = u' @ v" "u' \<in> lang (deriv c r)"
        using Seq.IH(1) by simp_all
      with uv show ?thesis by auto
    qed
  qed
qed auto


lemma re_match_lang: "re_match r s \<longleftrightarrow> (\<exists>p t. s = p @ t \<and> p \<in> lang r)"
proof (induction s arbitrary: r)
  case Nil
  then show ?case by (simp add: nullable_lang)
next
  case (Cons c s)
  show ?case
  proof
    assume "re_match r (c # s)"
    then have "[] \<in> lang r \<or> (\<exists>p t. s = p @ t \<and> c # p \<in> lang r)"
      using Cons.IH [of "deriv c r"] by (simp add: nullable_lang deriv_lang)
    then consider "[] \<in> lang r" | p t where "s = p @ t" "c # p \<in> lang r"
      by blast
    then show "\<exists>p t. c # s = p @ t \<and> p \<in> lang r"
    proof cases
      case 1
      then show ?thesis by (rule_tac x = "[]" in exI) simp
    next
      case 2
      then have "c # s = (c # p) @ t" by simp
      with 2 show ?thesis by blast
    qed
  next
    assume "\<exists>p t. c # s = p @ t \<and> p \<in> lang r"
    then obtain p t where pt: "c # s = p @ t" "p \<in> lang r" by blast
    show "re_match r (c # s)"
    proof (cases p)
      case Nil
      with pt have "nullable r" by (simp add: nullable_lang)
      then show ?thesis by simp
    next
      case (Cons a p')
      with pt have "s = p' @ t" "p' \<in> lang (deriv c r)" by (simp_all add: deriv_lang)
      then show ?thesis using Cons.IH [of "deriv c r"] by auto
    qed
  qed
qed



section \<open>Fields of an accepted body line\<close>


lemma lang_seqs_Cons:
  "p \<in> lang (seqs (r # rs)) \<Longrightarrow> \<exists>u q. p = u @ q \<and> u \<in> lang r \<and> q \<in> lang (seqs rs)"
  by (auto simp: seqs_def)











lemma body_match_not_comment: "body_match line \<Longrightarrow> \<not> startswith line ''#''"
proof -
  assume "body_match line"
  then obtain p t where pt: "line = p @ t" "p \<in> lang body_re"
    by (auto simp: body_match_def re_match_lang)
  from lang_seqs_Cons [OF pt(2) [unfolded body_re_def]]
  obtain a q where "p = a @ q" "a \<in> lang (Alt (lit ''rs'') (lit ''i''))"
    by blast
  then have "p = a @ q" "a = ''rs'' \<or> a = ''i''"
    by (auto simp: lit_def seqs_def)
  with pt show ?thesis by (auto simp: startswith_def)
qed

section \<open>The cleaning pass\<close>

lemma header_loop_shape:
  assumes "\<forall>h \<in> set hs. startswith h ''#''" and "\<not> startswith nl ''#''"
    and "l # rest = hs @ nl # bs"
  shows "header_loop acc l rest = Inr (acc @ concat hs, nl, bs)"
  using assms
proof (induction hs arbitrary: acc l rest)
  case Nil
  then show ?case by (cases rest) auto
next
  case (Cons h hs)
  then have l: "l = h" and rest: "rest = hs @ nl # bs" by auto
  show ?case
  proof (cases hs)
    case Nil
    with Cons.prems l rest show ?thesis by (cases bs) auto
  next
    case (Cons h' hs')
    with Cons.prems l rest Cons.IH [of h' "hs' @ nl # bs" "acc @ h"] show ?thesis by auto
  qed
qed

text \<open>A header that runs to the end of the input makes the pass raise.\<close>

lemma header_loop_StopIteration:
  "\<forall>h \<in> set (l # rest). startswith h ''#'' \<Longrightarrow> header_loop acc l rest = Inl StopIteration"
  by (induction rest arbitrary: acc l) auto

lemma body_step_output:
  "output_buf (body_step st l) = output_buf st @ filter body_match [l]"
  by (simp add: body_step_def)

lemma body_step_bad_format:
  "bad_format (body_step st l) = (bad_format st \<or> \<not> body_match l)"
  by (simp add: body_step_def)

lemma body_step_sentry:
  "sentry (body_step st l) =
     sentry st @ (if \<not> bad_format st \<and> \<not> body_match l then [body_anomaly] else [])"
  by (simp add: body_step_def)

lemma body_step_warnings:
  "warnings (body_step st l) =
     warnings st @ (if \<not> bad_format st \<and> \<not> body_match l then [bad_format_warning l] else [])"
  by (simp add: body_step_def)

lemma body_loop_output:
  "output_buf (body_loop st nl bs) = output_buf st @ filter body_match (body_lines nl bs)"
  by (induction bs arbitrary: st nl) (auto simp: body_lines_def body_step_output)

lemma body_loop_bad_format:
  "bad_format (body_loop st nl bs) = (bad_format st \<or> failing (body_lines nl bs) \<noteq> [])"
  by (induction bs arbitrary: st nl) (auto simp: body_lines_def failing_def body_step_bad_format)

lemma body_loop_sentry:
  "sentry (body_loop st nl bs) =
     sentry st @ (if \<not> bad_format st \<and> failing (body_lines nl bs) \<noteq> [] then [body_anomaly] else [])"
  by (induction bs arbitrary: st nl)
     (auto simp: body_lines_def failing_def body_step_sentry body_step_bad_format)

lemma body_loop_warnings:
  "warnings (body_loop st nl bs) =
     warnings st @ (if \<not> bad_format st \<and> failing (body_lines nl bs) \<noteq> []
                    then [bad_format_warning (hd (failing (body_lines nl bs)))] else [])"
  by (induction bs arbitrary: st nl)
     (auto simp: body_lines_def failing_def body_step_warnings body_step_bad_format)

lemma clean_raw_23andme_run:
  assumes "open_archive E = dateline # hs @ nl # bs"
    and "\<forall>h \<in> set hs. startswith h ''#''"
    and "\<not> startswith nl ''#''"
    and "clean_dateline E dateline = Inr out0"
  shows "\<exists>st. clean_raw_23andme E = Inr st
     \<and> output_buf st =
         out0 @ (if header_conforms E (concat hs) then [concat hs] else [])
         @ filter body_match (body_lines nl bs)
     \<and> sentry st =
         (if header_conforms E (concat hs) then [] else [header_anomaly])
         @ (if failing (body_lines nl bs) \<noteq> [] then [body_anomaly, body_anomaly] else [])
     \<and> warnings st =
         (if failing (body_lines nl bs) \<noteq> []
          then [bad_format_warning (hd (failing (body_lines nl bs)))] else [])
     \<and> bad_format st = (failing (body_lines nl bs) \<noteq> [])"
proof -
  obtain l rest where lr: "hs @ nl # bs = l # rest"
    by (cases "hs @ nl # bs") auto
  have hl: "header_loop [] l rest = Inr (concat hs, nl, bs)"
    using header_loop_shape [OF assms(2,3) lr [symmetric], of "[]"] by simp
  show ?thesis
    using assms(1,4) lr hl
    by (simp add: clean_raw_23andme_def Let_def body_loop_output body_loop_bad_format
          body_loop_sentry body_loop_warnings)
qed

section \<open>The VCF encoder\<close>

lemma dedup_first_filter: "dedup_first (filter Q xs) = filter Q (dedup_first xs)"
proof (induction xs)
  case Nil
  then show ?case by simp
next
  case (Cons x xs)
  show ?case
  proof (cases "Q x")
    case True
    with Cons show ?thesis by (simp add: conj_commute)
  next
    case False
    have "filter Q (filter (\<lambda>y. y \<noteq> x) (dedup_first xs)) = filter Q (dedup_first xs)"
      using False by (auto intro: filter_cong)
    with False Cons show ?thesis by simp
  qed
qed

lemma set_dedup_first: "set (dedup_first xs) = set xs"
  by (induction xs) auto

lemma distinct_dedup_first: "distinct (dedup_first xs)"
  by (induction xs) (auto simp: set_dedup_first)

lemma alt_loop_acc:
  "alt_loop ref acc call =
     acc @ dedup_first (filter (\<lambda>a. a \<noteq> ref \<and> a \<notin> set acc) (map (\<lambda>c. [c]) call))"
proof (induction call arbitrary: acc)
  case Nil
  then show ?case by simp
next
  case (Cons c call)
  show ?case
  proof (cases "[c] \<noteq> ref \<and> [c] \<notin> set acc")
    case True
    have "filter (\<lambda>a. a \<noteq> ref \<and> a \<notin> set (acc @ [[c]])) (map (\<lambda>c. [c]) call)
        = filter (\<lambda>y. y \<noteq> [c]) (filter (\<lambda>a. a \<noteq> ref \<and> a \<notin> set acc) (map (\<lambda>c. [c]) call))"
      by (auto intro: filter_cong)
    with True show ?thesis
      by (simp add: Cons.IH dedup_first_filter)
  next
    case False
    then show ?thesis by (auto simp: Cons.IH)
  qed
qed

lemma alt_loop_spec: "alt_loop ref [] call = spec_alt_list ref call"
  by (simp add: alt_loop_acc spec_alt_list_def)

lemma distinct_alt_loop: "distinct (alt_loop ref [] call)"
  by (simp add: alt_loop_spec spec_alt_list_def distinct_dedup_first)

lemma set_alt_loop: "set (alt_loop ref [] call) = {[c] | c. c \<in> set call \<and> [c] \<noteq> ref}"
  by (auto simp: alt_loop_spec spec_alt_list_def set_dedup_first)

lemma index_Some: "x \<in> set xs \<Longrightarrow> \<exists>i. index xs x = Some i"
  by (induction xs) auto

lemma index_bound: "index xs x = Some i \<Longrightarrow> i < length xs \<and> xs ! i = x"
  by (induction xs arbitrary: i) (auto split: if_splits)

lemma call_in_all_alleles: "c \<in> set call \<Longrightarrow> [c] \<in> set (ref # alt_loop ref [] call)"
  by (auto simp: set_alt_loop)

lemma genotype_indices_total:
  "\<forall>c \<in> set call. [c] \<in> set all_alleles \<Longrightarrow>
   genotype_indices all_alleles call =
     Inr (map (\<lambda>c. str_nat (the (index all_alleles [c]))) call)"
proof (induction call)
  case Nil
  then show ?case by simp
next
  case (Cons c call)
  then obtain i where "index all_alleles [c] = Some i"
    using index_Some [of "[c]" all_alleles] by auto
  with Cons show ?case by simp
qed

lemma genotype_indices_vcf:
  "genotype_indices (ref # alt_loop ref [] call) call =
     Inr (map (\<lambda>c. str_nat (the (index (ref # alt_loop ref [] call) [c]))) call)"
  by (rule genotype_indices_total) (auto simp: set_alt_loop)

text \<open>The record of a line in closed form: the index lookup never fails.\<close>

lemma vcf_record_tail:
  "(let v0 = (\<lambda>x. ''.'')(REF := ref);
        v1 = v0(CHROM := (if data ! 1 = ''MT'' then ''M'' else data ! 1));
        v2 = v1(POS := data ! 2);
        v3 = (if startswith (data ! 0) ''rs'' then v2(ID := data ! 0) else v2);
        alt_alleles = alt_loop (v3 REF) [] (data ! 3);
        v4 = (if alt_alleles \<noteq> [] then v3(ALT := join '','' alt_alleles)
              else v3(ALT := ''.'', INFO := ''END='' @ v3 POS));
        v5 = v4(FORMAT := ''GT'');
        all_alleles = [v5 REF] @ alt_alleles
    in case genotype_indices all_alleles (data ! 3) of
         Inl e \<Rightarrow> Inl e
       | Inr genotype \<Rightarrow> Inr (Some (v5(DATA_23ANDME := join ''/'' genotype))))
   = Inr (Some (vcf_data_of data ref))"
proof -
  define gt where
    "gt = map (\<lambda>c. str_nat (the (index (ref # alt_loop ref [] (data ! 3)) [c]))) (data ! 3)"
  have g: "genotype_indices (ref # alt_loop ref [] (data ! 3)) (data ! 3) = Inr gt"
    unfolding gt_def by (rule genotype_indices_vcf)
  show ?thesis
    using g
    unfolding Let_def vcf_data_of_def gt_def [symmetric]
    by (auto simp: fun_eq_iff simp del: index.simps)
qed

lemma vcf_record_closed:
  "vcf_record reference line =
     (let data = split_on TAB (rstrip line)
      in if startswith line ''#'' then Inr None
         else if length data < 4 then Inl IndexError
         else if \<not> call_match (data ! 3) then Inr None
         else case lookup reference (data ! 1) (data ! 2) of
                None \<Rightarrow> Inr None
              | Some ref \<Rightarrow> Inr (Some (vcf_data_of data ref)))"
  unfolding vcf_record_def Let_def [of "split_on TAB (rstrip line)"]
  by (simp only: vcf_record_tail)

section \<open>The cleaning pass on the sample archive\<close>

lemma sample_open_archive:
  "open_archive sample_env = sample_dateline # sample_header @ sample_first # sample_rest"
  by (simp add: sample_env_def sample_archive_def)

lemma sample_clean_dateline:
  "clean_dateline sample_env sample_dateline =
     Inr [''# This data file generated by 23andMe at: Mon Jan 05 10:11:12 2015'' @ [CR, LF]]"
  by code_simp

lemma sample_header_comment: "\<forall>h \<in> set sample_header. startswith h ''#''"
  by (simp add: sample_header_def startswith_def)

lemma sample_first_body: "\<not> startswith sample_first ''#''"
  by (simp add: sample_first_def startswith_def)

lemma sample_header_differs: "\<not> header_conforms sample_env (concat sample_header)"
  by code_simp

lemma sample_body_lines: "body_lines sample_first sample_rest = sample_first # sample_rest"
  by code_simp

lemma sample_accepted:
  "filter body_match (sample_first # sample_rest) =
     [''rs123'' @ [TAB] @ ''1'' @ [TAB] @ ''1000'' @ [TAB] @ ''AG'' @ [LF],
      ''i700001'' @ [TAB] @ ''1'' @ [TAB] @ ''1001'' @ [TAB] @ ''AA'' @ [LF],
      ''rs888'' @ [TAB] @ ''1'' @ [TAB] @ ''999999'' @ [TAB] @ ''AG'' @ [LF],
      ''rs777'' @ [TAB] @ ''99'' @ [TAB] @ ''5'' @ [TAB] @ ''GTTA'' @ [LF]]"
  by code_simp

lemma sample_failing:
  "failing (sample_first # sample_rest) = [''John Doe'' @ [LF], ''rs5'' @ [TAB] @ ''1'' @ [LF]]"
  by code_simp

lemma anomalies_differ: "header_anomaly \<noteq> body_anomaly"
  by (simp add: header_anomaly_def body_anomaly_def)

lemma sample_run:
  "clean_raw_23andme sample_env =
     Inr \<lparr>output_buf =
            [''# This data file generated by 23andMe at: Mon Jan 05 10:11:12 2015'' @ [CR, LF],
             ''rs123'' @ [TAB] @ ''1'' @ [TAB] @ ''1000'' @ [TAB] @ ''AG'' @ [LF],
             ''i700001'' @ [TAB] @ ''1'' @ [TAB] @ ''1001'' @ [TAB] @ ''AA'' @ [LF],
             ''rs888'' @ [TAB] @ ''1'' @ [TAB] @ ''999999'' @ [TAB] @ ''AG'' @ [LF],
             ''rs777'' @ [TAB] @ ''99'' @ [TAB] @ ''5'' @ [TAB] @ ''GTTA'' @ [LF]],
          bad_format = True,
          sentry = [header_anomaly, body_anomaly, body_anomaly],
          warnings = [bad_format_warning (''John Doe'' @ [LF])]\<rparr>"
proof -
  obtain st where st: "clean_raw_23andme sample_env = Inr st"
    and o: "output_buf st =
         [''# This data file generated by 23andMe at: Mon Jan 05 10:11:12 2015'' @ [CR, LF]]
         @ (if header_conforms sample_env (concat sample_header) then [concat sample_header] else [])
         @ filter body_match (body_lines sample_first sample_rest)"
    and s: "sentry st =
         (if header_conforms sample_env (concat sample_header) then [] else [header_anomaly])
         @ (if failing (body_lines sample_first sample_rest) \<noteq> [] then [body_anomaly, body_anomaly] else [])"
    and w: "warnings st =
         (if failing (body_lines sample_first sample_rest) \<noteq> []
          then [bad_format_warning (hd (failing (body_lines sample_first sample_rest)))] else [])"
    and b: "bad_format st = (failing (body_lines sample_first sample_rest) \<noteq> [])"
    using clean_raw_23andme_run [OF sample_open_archive sample_header_comment sample_first_body
        sample_clean_dateline]
    by blast
  have "output_buf st =
      [''# This data file generated by 23andMe at: Mon Jan 05 10:11:12 2015'' @ [CR, LF],
       ''rs123'' @ [TAB] @ ''1'' @ [TAB] @ ''1000'' @ [TAB] @ ''AG'' @ [LF],
       ''i700001'' @ [TAB] @ ''1'' @ [TAB] @ ''1001'' @ [TAB] @ ''AA'' @ [LF],
       ''rs888'' @ [TAB] @ ''1'' @ [TAB] @ ''999999'' @ [TAB] @ ''AG'' @ [LF],
       ''rs777'' @ [TAB] @ ''99'' @ [TAB] @ ''5'' @ [TAB] @ ''GTTA'' @ [LF]]"
    using o unfolding sample_body_lines sample_accepted by (simp add: sample_header_differs)
  moreover have "sentry st = [header_anomaly, body_anomaly, body_anomaly]"
    using s unfolding sample_body_lines sample_failing by (simp add: sample_header_differs)
  moreover have "warnings st = [bad_format_warning (''John Doe'' @ [LF])]"
    using w unfolding sample_body_lines sample_failing by simp
  moreover have "bad_format st"
    using b unfolding sample_body_lines sample_failing by simp
  ultimately have "st = \<lparr>output_buf =
            [''# This data file generated by 23andMe at: Mon Jan 05 10:11:12 2015'' @ [CR, LF],
             ''rs123'' @ [TAB] @ ''1'' @ [TAB] @ ''1000'' @ [TAB] @ ''AG'' @ [LF],
             ''i700001'' @ [TAB] @ ''1'' @ [TAB] @ ''1001'' @ [TAB] @ ''AA'' @ [LF],
             ''rs888'' @ [TAB] @ ''1'' @ [TAB] @ ''999999'' @ [TAB] @ ''AG'' @ [LF],
             ''rs777'' @ [TAB] @ ''99'' @ [TAB] @ ''5'' @ [TAB] @ ''GTTA'' @ [LF]],
          bad_format = True,
          sentry = [header_anomaly, body_anomaly, body_anomaly],
          warnings = [bad_format_warning (''John Doe'' @ [LF])]\<rparr>"
    by (cases st) simp
  with st show ?thesis by simp
qed

text \<open>
  C1 (as the code has it). When the header block (the comment lines after the first
  line) matches neither template and a body line follows it, the cleaning pass
  returns, writes what the first line gave and the accepted body lines but none of
  the header, and reports the header anomaly exactly once.
\<close>

theorem header_mismatch_reported:
  assumes "open_archive E = dateline # hs @ nl # bs"
    and "\<forall>h \<in> set hs. startswith h ''#''"
    and "\<not> startswith nl ''#''"
    and "clean_dateline E dateline = Inr out0"
    and "\<not> header_conforms E (concat hs)"
  shows "\<exists>st. clean_raw_23andme E = Inr st
           \<and> output_buf st = out0 @ filter body_match (body_lines nl bs)
           \<and> count_list (sentry st) header_anomaly = 1"
proof -
  from clean_raw_23andme_run [OF assms(1-4)] obtain st where
    "clean_raw_23andme E = Inr st"
    "output_buf st = out0 @ (if header_conforms E (concat hs) then [concat hs] else [])
       @ filter body_match (body_lines nl bs)"
    "sentry st = (if header_conforms E (concat hs) then [] else [header_anomaly])
       @ (if failing (body_lines nl bs) \<noteq> [] then [body_anomaly, body_anomaly] else [])"
    by blast
  with assms(5) show ?thesis
    by (simp add: anomalies_differ [symmetric])
qed

theorem header_mismatch_reported_witness:
  "\<exists>st. clean_raw_23andme sample_env = Inr st
     \<and> output_buf st =
         [''# This data file generated by 23andMe at: Mon Jan 05 10:11:12 2015'' @ [CR, LF]]
         @ filter body_match (body_lines sample_first sample_rest)
     \<and> count_list (sentry st) header_anomaly = 1"
  by (rule header_mismatch_reported [OF sample_open_archive sample_header_comment
        sample_first_body sample_clean_dateline sample_header_differs])

text \<open>
  C1 as the specification states it fails on the sample archive: its header
  differs from both templates, and the cleaned output holds the date comment and the
  four accepted body lines, not the header line.
\<close>

theorem header_mismatch_counterexample:
  "\<not> header_conforms sample_env (concat sample_header)
   \<and> clean_raw_23andme sample_env =
     Inr \<lparr>output_buf =
            [''# This data file generated by 23andMe at: Mon Jan 05 10:11:12 2015'' @ [CR, LF],
             ''rs123'' @ [TAB] @ ''1'' @ [TAB] @ ''1000'' @ [TAB] @ ''AG'' @ [LF],
             ''i700001'' @ [TAB] @ ''1'' @ [TAB] @ ''1001'' @ [TAB] @ ''AA'' @ [LF],
             ''rs888'' @ [TAB] @ ''1'' @ [TAB] @ ''999999'' @ [TAB] @ ''AG'' @ [LF],
             ''rs777'' @ [TAB] @ ''99'' @ [TAB] @ ''5'' @ [TAB] @ ''GTTA'' @ [LF]],
          bad_format = True,
          sentry = [header_anomaly, body_anomaly, body_anomaly],
          warnings = [bad_format_warning (''John Doe'' @ [LF])]\<rparr>"
  using sample_header_differs sample_run by (rule conjI)

text \<open>
  Every run with a failing body line sends the body anomaly twice, once at the first
  failing line and once after the loop, and logs the first failing line only.
\<close>

lemma bad_format_reports:
  assumes "open_archive E = dateline # hs @ nl # bs"
    and "\<forall>h \<in> set hs. startswith h ''#''"
    and "\<not> startswith nl ''#''"
    and "clean_dateline E dateline = Inr out0"
    and "failing (body_lines nl bs) \<noteq> []"
  shows "\<exists>st. clean_raw_23andme E = Inr st
           \<and> count_list (sentry st) body_anomaly = 2
           \<and> warnings st = [bad_format_warning (hd (failing (body_lines nl bs)))]"
proof -
  from clean_raw_23andme_run [OF assms(1-4)] obtain st where
    "clean_raw_23andme E = Inr st"
    "sentry st = (if header_conforms E (concat hs) then [] else [header_anomaly])
       @ (if failing (body_lines nl bs) \<noteq> [] then [body_anomaly, body_anomaly] else [])"
    "warnings st = (if failing (body_lines nl bs) \<noteq> []
       then [bad_format_warning (hd (failing (body_lines nl bs)))] else [])"
    by blast
  with assms(5) show ?thesis
    by (simp add: anomalies_differ)
qed

text \<open>
  C2. The code breaks the claim on the sample archive, which has two failing body
  lines: the body anomaly is sent twice, not once, against the comment
  \<^verbatim>\<open>Only report this type of format issue once\<close>, and the log has an entry for the
  first failing line only.
\<close>

theorem body_anomaly_reported_twice:
  "failing (body_lines sample_first sample_rest) =
     [''John Doe'' @ [LF], ''rs5'' @ [TAB] @ ''1'' @ [LF]]
   \<and> count_list (sentry (projr (clean_raw_23andme sample_env))) body_anomaly = 2
   \<and> warnings (projr (clean_raw_23andme sample_env)) = [bad_format_warning (''John Doe'' @ [LF])]"
  by (simp add: sample_run sample_body_lines sample_failing anomalies_differ)







section \<open>Records of the VCF encoder\<close>

lemma vcf_record_Some:
  assumes "vcf_record reference line = Inr (Some v)"
  shows "\<exists>ref. lookup reference (split_on TAB (rstrip line) ! 1) (split_on TAB (rstrip line) ! 2)
               = Some ref
           \<and> v = vcf_data_of (split_on TAB (rstrip line)) ref"
  using assms unfolding vcf_record_closed Let_def
  by (auto split: if_splits option.splits)

lemma vcf_data_of_fields:
  "vcf_data_of data ref REF = ref"
  "vcf_data_of data ref POS = data ! 2"
  "vcf_data_of data ref ALT =
     (if alt_loop ref [] (data ! 3) \<noteq> [] then join '','' (alt_loop ref [] (data ! 3)) else ''.'')"
  "vcf_data_of data ref INFO =
     (if alt_loop ref [] (data ! 3) \<noteq> [] then ''.'' else ''END='' @ data ! 2)"
  "vcf_data_of data ref DATA_23ANDME =
     join ''/'' (map (\<lambda>c. str_nat (the (index (ref # alt_loop ref [] (data ! 3)) [c]))) (data ! 3))"
  by (simp_all add: vcf_data_of_def)

lemma sample_record:
  "vcf_record sample_reference sample_first =
     Inr (Some (vcf_data_of [''rs123'', ''1'', ''1000'', ''AG''] ''A''))"
proof -
  have d: "split_on TAB (rstrip sample_first) = [''rs123'', ''1'', ''1000'', ''AG'']"
    by code_simp
  have s: "\<not> startswith sample_first ''#''"
    by (rule sample_first_body)
  have c: "call_match ''AG''"
    by code_simp
  have l: "lookup sample_reference ''1'' ''1000'' = Some ''A''"
    by (simp add: lookup_def sample_reference_def)
  show ?thesis
    unfolding vcf_record_closed Let_def d using s c l by simp
qed

text \<open>
  C5. In the record of a line, the alternate alleles are the characters of the call
  that differ from the reference base, each once and in the order of first
  occurrence; with none, ALT is a dot and INFO is \<^verbatim>\<open>END=\<close> and the position;
  otherwise ALT joins them with commas and INFO is a dot.
\<close>

theorem alt_alleles_first_occurrence:
  assumes "vcf_record reference line = Inr (Some v)"
  shows "let data = split_on TAB (rstrip line);
             alt_alleles = alt_loop (v REF) [] (data ! 3)
         in alt_alleles = spec_alt_list (v REF) (data ! 3)
            \<and> distinct alt_alleles
            \<and> set alt_alleles = {[c] | c. c \<in> set (data ! 3) \<and> [c] \<noteq> v REF}
            \<and> (alt_alleles = [] \<longrightarrow> v ALT = ''.'' \<and> v INFO = ''END='' @ data ! 2)
            \<and> (alt_alleles \<noteq> [] \<longrightarrow> v ALT = join '','' alt_alleles \<and> v INFO = ''.'')"
proof -
  from vcf_record_Some [OF assms] obtain ref where
    v: "v = vcf_data_of (split_on TAB (rstrip line)) ref"
    by blast
  show ?thesis
    unfolding Let_def v vcf_data_of_fields
    by (simp add: alt_loop_spec [symmetric] distinct_alt_loop set_alt_loop)
qed

theorem alt_alleles_first_occurrence_witness:
  "vcf_record sample_reference sample_first =
     Inr (Some (vcf_data_of [''rs123'', ''1'', ''1000'', ''AG''] ''A''))
   \<and> alt_loop ''A'' [] ''AG'' = spec_alt_list ''A'' ''AG''
   \<and> alt_loop ''A'' [] ''AG'' = [''G'']
   \<and> vcf_data_of [''rs123'', ''1'', ''1000'', ''AG''] ''A'' ALT = ''G''
   \<and> vcf_data_of [''rs123'', ''1'', ''1000'', ''AG''] ''A'' INFO = ''.''"
proof -
  have d: "split_on TAB (rstrip sample_first) = [''rs123'', ''1'', ''1000'', ''AG'']"
    by code_simp
  have b: "spec_alt_list ''A'' ''AG'' = [''G'']"
    by code_simp
  show ?thesis
    using sample_record alt_alleles_first_occurrence [OF sample_record]
    unfolding Let_def vcf_data_of_fields(1) d
    by (simp add: b)
qed

text \<open>
  The only failure of a turn of the encoder's loop is a line of fewer than four
  fields.
\<close>

lemma vcf_record_error: "vcf_record reference line = Inl e \<Longrightarrow> e = IndexError"
  unfolding vcf_record_closed Let_def by (auto split: if_splits option.splits)

text \<open>
  C6. A turn of the encoder's loop never fails in \<^verbatim>\<open>list.index\<close>: for the
  record of a line, every character of the call is in the list of the reference base
  followed by the alternate alleles, its index is below the length of that list, and
  the sample field joins the indices with slashes in the order of the call.
\<close>

theorem genotype_indices_in_range:
  "vcf_record reference line \<noteq> Inl ValueError
   \<and> (vcf_record reference line = Inr (Some v) \<longrightarrow>
        (let call = split_on TAB (rstrip line) ! 3;
             all_alleles = [v REF] @ alt_loop (v REF) [] call
         in (\<forall>c \<in> set call. [c] \<in> set all_alleles
               \<and> (\<exists>i. index all_alleles [c] = Some i \<and> i < length all_alleles
                      \<and> all_alleles ! i = [c]))
            \<and> genotype_indices all_alleles call
                = Inr (map (\<lambda>c. str_nat (the (index all_alleles [c]))) call)
            \<and> v DATA_23ANDME = join ''/'' (map (\<lambda>c. str_nat (the (index all_alleles [c]))) call)))"
proof (intro conjI impI)
  show "vcf_record reference line \<noteq> Inl ValueError"
    using vcf_record_error [of reference line ValueError] by auto
next
  assume rec: "vcf_record reference line = Inr (Some v)"
  from vcf_record_Some [OF rec] obtain ref where
    v: "v = vcf_data_of (split_on TAB (rstrip line)) ref"
    by blast
  define call where "call = split_on TAB (rstrip line) ! 3"
  define all_alleles where "all_alleles = ref # alt_loop ref [] call"
  have mem: "[c] \<in> set all_alleles" if "c \<in> set call" for c
    unfolding all_alleles_def using that by (rule call_in_all_alleles)
  have idx: "\<exists>i. index all_alleles [c] = Some i \<and> i < length all_alleles \<and> all_alleles ! i = [c]"
    if "c \<in> set call" for c
  proof -
    from index_Some [OF mem [OF that]] obtain i where "index all_alleles [c] = Some i"
      by blast
    with index_bound [OF this] show ?thesis by blast
  qed
  have g: "genotype_indices all_alleles call
      = Inr (map (\<lambda>c. str_nat (the (index all_alleles [c]))) call)"
    unfolding all_alleles_def by (rule genotype_indices_vcf)
  have f: "v DATA_23ANDME = join ''/'' (map (\<lambda>c. str_nat (the (index all_alleles [c]))) call)"
    unfolding v vcf_data_of_fields all_alleles_def call_def by (rule refl)
  have r: "v REF = ref"
    unfolding v vcf_data_of_fields by (rule refl)
  show "let call = split_on TAB (rstrip line) ! 3;
            all_alleles = [v REF] @ alt_loop (v REF) [] call
        in (\<forall>c \<in> set call. [c] \<in> set all_alleles
              \<and> (\<exists>i. index all_alleles [c] = Some i \<and> i < length all_alleles
                     \<and> all_alleles ! i = [c]))
           \<and> genotype_indices all_alleles call
               = Inr (map (\<lambda>c. str_nat (the (index all_alleles [c]))) call)
           \<and> v DATA_23ANDME = join ''/'' (map (\<lambda>c. str_nat (the (index all_alleles [c]))) call)"
    unfolding Let_def r call_def [symmetric] append_Cons append_Nil all_alleles_def [symmetric]
    using mem idx g f by blast
qed

theorem genotype_indices_in_range_witness:
  "vcf_record sample_reference sample_first =
     Inr (Some (vcf_data_of [''rs123'', ''1'', ''1000'', ''AG''] ''A''))
   \<and> genotype_indices [''A'', ''G''] ''AG'' = Inr [''0'', ''1'']
   \<and> vcf_data_of [''rs123'', ''1'', ''1000'', ''AG''] ''A'' DATA_23ANDME = ''0/1''"
proof -
  have s: "str_nat 0 = ''0''" "str_nat (Suc 0) = ''1''"
    by code_simp+
  have d: "split_on TAB (rstrip sample_first) = [''rs123'', ''1'', ''1000'', ''AG'']"
    by code_simp
  show ?thesis
    using sample_record
      genotype_indices_in_range [of sample_reference sample_first
        "vcf_data_of [''rs123'', ''1'', ''1000'', ''AG''] ''A''"]
    unfolding Let_def vcf_data_of_fields(1) d
    by (simp add: s)
qed





section \<open>Creating the two files\<close>




























end
